theory Spec2Isabelle
  imports Main "HOL-Library.Sublist" "HOL-Library.AList"
begin

section \<open>String primitives of the JavaScript runtime used by \<^verbatim>\<open>cli.js\<close>\<close>

text \<open>
  A JavaScript string is modelled as a \<^typ>\<open>string\<close>, a list of code units. Every
  pattern the program searches for (\<^verbatim>\<open>/\<close>, \<^verbatim>\<open>.\<close>, \<^verbatim>\<open>index\<close>,
  \<^verbatim>\<open>}(this));\<close>) is ASCII, so the width of a code unit plays no role.

  \<^verbatim>\<open>s.replace(/pat$/, rep)\<close> for a literal \<^verbatim>\<open>pat\<close> and a regular expression
  without the \<^verbatim>\<open>g\<close> and \<^verbatim>\<open>m\<close> flags: the matcher tries the start positions from left
  to right; at a position the match succeeds when the rest of the input is exactly
  \<^verbatim>\<open>pat\<close> (\<^verbatim>\<open>$\<close> asserts the end of the input). The first match is replaced.
\<close>

fun replace_at_end :: "string \<Rightarrow> string \<Rightarrow> string \<Rightarrow> string" where
  "replace_at_end pat rep [] = (if pat = [] then rep else [])"
| "replace_at_end pat rep (c # cs) =
     (if c # cs = pat then rep else c # replace_at_end pat rep cs)"

text \<open>
  \<^verbatim>\<open>s.replace(pat, rep)\<close> with a string pattern: only the first (leftmost) occurrence
  is replaced. The replacement strings of the program contain no \<^verbatim>\<open>$\<close>, so no
  replacement pattern is expanded.
\<close>

fun replace_first :: "string \<Rightarrow> string \<Rightarrow> string \<Rightarrow> string" where
  "replace_first pat rep [] = (if pat = [] then rep else [])"
| "replace_first pat rep (c # cs) =
     (if prefix pat (c # cs) then rep @ drop (length pat) (c # cs)
      else c # replace_first pat rep cs)"

text \<open>
  \<^verbatim>\<open>s.split(sep)\<close> for a one-character separator: the pieces between the separators,
  empty pieces included; the empty string gives one empty piece.
\<close>

fun split_acc :: "char \<Rightarrow> string \<Rightarrow> string \<Rightarrow> string list" where
  "split_acc sep acc [] = [acc]"
| "split_acc sep acc (c # cs) =
     (if c = sep then acc # split_acc sep [] cs else split_acc sep (acc @ [c]) cs)"

definition js_split :: "char \<Rightarrow> string \<Rightarrow> string list" where
  "js_split sep s = split_acc sep [] s"

text \<open>\<^verbatim>\<open>xs.join(sep)\<close>.\<close>

fun js_join :: "string \<Rightarrow> string list \<Rightarrow> string" where
  "js_join sep [] = []"
| "js_join sep [x] = x"
| "js_join sep (x # y # ys) = x @ sep @ js_join sep (y # ys)"

section \<open>Routes\<close>

text \<open>
  \<^verbatim>\<open>cleanRoute(route) = route.replace(/(^\/|\/$)/, "")\<close>. The expression has no
  \<^verbatim>\<open>g\<close> flag, so one match is removed. At position 0 the first alternative matches
  when the route starts with a slash; otherwise no alternative matches at position 0
  (the second needs a slash there too), the first alternative cannot match later, and
  the second matches where the rest of the input is a single slash.
\<close>

definition cleanRoute :: "string \<Rightarrow> string" where
  "cleanRoute route =
     (case route of
        [] \<Rightarrow> []
      | c # cs \<Rightarrow> if c = CHR ''/'' then cs else replace_at_end ''/'' [] route)"

text \<open>\<^verbatim>\<open>pathToRoot\<close>, lines 123 to 131.\<close>

definition pathToRoot :: "string \<Rightarrow> string" where
  "pathToRoot cleanedRoute =
     (if cleanedRoute = [] then cleanedRoute
      else replace_at_end ''.'' ''./''
             (js_join ''/'' (map (\<lambda>_. ''..'') (js_split CHR ''/'' cleanedRoute))))"

text \<open>
  \<^verbatim>\<open>baseRoute\<close>, lines 136 to 139. The emptiness test is on the cleaned route, the
  call of \<^verbatim>\<open>pathToRoot\<close> is on the route as received.
\<close>

definition baseRoute :: "string \<Rightarrow> string" where
  "baseRoute route =
     (let cleanedRoute = cleanRoute route
      in if cleanedRoute = [] then ''./'' else pathToRoot route)"

text \<open>
  The normalization of \<^verbatim>\<open>outputString\<close>, line 148:
  \<^verbatim>\<open>args.route.replace(/index$/, "")\<close>.
\<close>

definition normalizedRoute :: "string \<Rightarrow> string" where
  "normalizedRoute route = replace_at_end ''index'' [] route"

section \<open>JSON values and \<^verbatim>\<open>JSON.stringify\<close>\<close>

text \<open>
  The values that cross the port are JSON values. Numbers are modelled as integers
  (printed in decimal, as \<^verbatim>\<open>JSON.stringify\<close> prints an integer below \<^verbatim>\<open>1e21\<close>);
  an object is the list of its properties in enumeration order.
\<close>

datatype json =
    JNull
  | JBool bool
  | JNum int
  | JStr string
  | JArr "json list"
  | JObj "(string \<times> json) list"

fun show_nat :: "nat \<Rightarrow> string" where
  "show_nat n =
     (if n < 10 then [''0123456789'' ! n]
      else show_nat (n div 10) @ [''0123456789'' ! (n mod 10)])"

declare show_nat.simps [simp del]

definition show_int :: "int \<Rightarrow> string" where
  "show_int i = (if i < 0 then CHR ''-'' # show_nat (nat (- i)) else show_nat (nat i))"

text \<open>
  The quoting of a string by \<^verbatim>\<open>JSON.stringify\<close>: the double quote and the backslash
  are escaped, the control characters below the space have their short escape or
  \<^verbatim>\<open>\u00XX\<close> in lower-case hexadecimal, every other code unit is copied.
\<close>

definition escape_char :: "char \<Rightarrow> string" where
  "escape_char c =
     (if c = CHR 0x22 then [CHR 0x5C, CHR 0x22]
      else if c = CHR 0x5C then [CHR 0x5C, CHR 0x5C]
      else if c = CHR 0x08 then [CHR 0x5C, CHR ''b'']
      else if c = CHR 0x09 then [CHR 0x5C, CHR ''t'']
      else if c = CHR 0x0A then [CHR 0x5C, CHR ''n'']
      else if c = CHR 0x0C then [CHR 0x5C, CHR ''f'']
      else if c = CHR 0x0D then [CHR 0x5C, CHR ''r'']
      else if (of_char c :: nat) < 32
        then [CHR 0x5C, CHR ''u'', CHR ''0'', CHR ''0'',
              ''0123456789abcdef'' ! (of_char c div 16),
              ''0123456789abcdef'' ! (of_char c mod 16)]
      else [c])"

definition quote :: "string \<Rightarrow> string" where
  "quote s = CHR 0x22 # concat (map escape_char s) @ [CHR 0x22]"

fun stringify :: "json \<Rightarrow> string" where
  "stringify JNull = ''null''"
| "stringify (JBool b) = (if b then ''true'' else ''false'')"
| "stringify (JNum i) = show_int i"
| "stringify (JStr s) = quote s"
| "stringify (JArr xs) = ''['' @ js_join '','' (map stringify xs) @ '']''"
| "stringify (JObj kvs) =
     ''{'' @ js_join '','' (map (\<lambda>(k, v). quote k @ '':'' @ stringify v) kvs) @ ''}''"

text \<open>
  \<^verbatim>\<open>obj[key] = v\<close> on an object whose keys are not array indices: an existing
  property keeps its place and takes the new value, a new property is added last.
\<close>

definition set_property :: "(string \<times> json) list \<Rightarrow> string \<Rightarrow> json \<Rightarrow> (string \<times> json) list" where
  "set_property obj key v = AList.update key v obj"

section \<open>Protocol messages, pages and the state of the process\<close>

text \<open>The record \<^verbatim>\<open>Arg\<close> of the type definition at lines 252 to 263.\<close>

record Arg =
  body :: string
  head :: "json list"
  errors :: "json list"
  contentJson :: json
  html :: string
  route :: string
  title :: string

text \<open>
  A message of the port \<^verbatim>\<open>toJsPort\<close> is an object of which the handler reads the
  properties \<^verbatim>\<open>command\<close>, \<^verbatim>\<open>tag\<close>, \<^verbatim>\<open>value\<close> and \<^verbatim>\<open>args[0]\<close>. An absent
  property is \<^const>\<open>None\<close>. The first argument has the shape its branch reads:
  the manifest and the files to generate, a page, or the details of an error.
\<close>

datatype msg_args =
    InitialDataArgs json "(string \<times> string) list"
  | PageArgs Arg
  | OtherArgs json

record fromElm =
  command :: "string option"
  tag :: "string option"
  log_value :: json
  args0 :: msg_args

text \<open>
  What is printed, and the effects the handlers request. The effects are not
  interpreted: \<^verbatim>\<open>tryMkdir\<close> and \<^verbatim>\<open>writeFile\<close> are functions of the module
  \<^verbatim>\<open>dir-helpers.js\<close>, which is outside the core, and an effect records the call and
  its arguments.
\<close>

datatype printed = PStr string | PJson json | PArgs msg_args | PMsg fromElm

datatype effect =
    ConsoleLog printed
  | ConsoleError printed
  | TryMkdir string
  | WriteFile string string

fun is_file_io :: "effect \<Rightarrow> bool" where
  "is_file_io (ConsoleLog _) = False"
| "is_file_io (ConsoleError _) = False"
| "is_file_io (TryMkdir _) = True"
| "is_file_io (WriteFile _ _) = True"

text \<open>
  The state of the process: the module variable \<^verbatim>\<open>foundErrors\<close> (line 17) and the
  trace of the effects requested so far. The effects of one handler are listed in
  program order, those of its asynchronous continuation with it.
\<close>

record proc_state =
  foundErrors :: bool
  io :: "effect list"

definition initial_state :: proc_state where
  "initial_state = \<lparr>foundErrors = False, io = []\<rparr>"

text \<open>
  The modules \<^verbatim>\<open>seo-renderer.js\<close>, \<^verbatim>\<open>generate-manifest.js\<close> and
  \<^verbatim>\<open>package.json\<close> are outside the core; what the program takes from them is a
  parameter.
\<close>

record env =
  cliVersion :: string
  seo_toString :: "json list \<Rightarrow> string"
  generateManifest :: "json \<Rightarrow> json"

datatype fatal = UnknownPortTag | TypeError

section \<open>The HTML document\<close>

definition text_lines :: "string list \<Rightarrow> string" where
  "text_lines ls = js_join ''\<newline>'' ls"

definition html_part1 :: string where
  \<open>html_part1 = text_lines
     [''<!DOCTYPE html>'',
      ''  <html lang="en">'',
      ''  <head>'',
      ''    <link rel="preload" href="content.json" as="fetch" crossorigin="">'',
      ''    <link rel="stylesheet" href="/style.css"></link>'',
      ''    <link rel="preload" href="/elm-pages.js" as="script">'',
      ''    <link rel="preload" href="/index.js" as="script">'',
      ''    <link rel="preload" href="/elm.js" as="script">'',
      ''    <link rel="preload" href="/elm.js" as="script">'',
      ''    <script defer="defer" src="/elm.js" type="module"></script>'',
      ''    <script defer="defer" src="/elm-pages.js" type="module"></script>'',
      ''    <base href="'']\<close>

definition html_part2 :: string where
  \<open>html_part2 = text_lines
     [''">'',
      ''    <meta charset="UTF-8">'',
      ''    <meta name="viewport" content="width=device-width,initial-scale=1">'',
      ''    <script>'',
      ''    if ("serviceWorker" in navigator) {'',
      ''      window.addEventListener("load", () => {'',
      ''        navigator.serviceWorker.getRegistrations().then(function(registrations) {'',
      ''          for (let registration of registrations) {'',
      ''            registration.unregister()'',
      ''          } '',
      ''        })'',
      ''      });'',
      ''    }'',
      ''    </script>'',
      ''    <title>'']\<close>

definition html_part3 :: string where
  \<open>html_part3 = text_lines
     [''</title>'',
      ''    <meta name="generator" content="elm-pages v'']\<close>

definition html_part4 :: string where
  \<open>html_part4 = text_lines
     [''">'',
      ''    <link rel="manifest" href="manifest.json">'',
      ''    <meta name="mobile-web-app-capable" content="yes">'',
      ''    <meta name="theme-color" content="#ffffff">'',
      ''    <meta name="apple-mobile-web-app-capable" content="yes">'',
      ''    <meta name="apple-mobile-web-app-status-bar-style" content="black-translucent">'',
      '''',
      ''    '']\<close>

definition html_part5 :: string where
  \<open>html_part5 = text_lines
     ['''',
      ''    </head>'',
      ''    <body>'',
      ''      <div data-url="" display="none"></div>'',
      ''      '']\<close>

definition html_part6 :: string where
  \<open>html_part6 = text_lines
     ['''',
      ''    </body>'',
      ''  </html>'',
      ''  '']\<close>

text \<open>\<^verbatim>\<open>wrapHtml\<close>, lines 265 to 308.\<close>

definition wrapHtml :: "env \<Rightarrow> Arg \<Rightarrow> string" where
  "wrapHtml e fromElm =
     html_part1 @ baseRoute (route fromElm) @
     html_part2 @ title fromElm @
     html_part3 @ cliVersion e @
     html_part4 @ seo_toString e (head fromElm) @
     html_part5 @ html fromElm @
     html_part6"

section \<open>Output of pages and files\<close>

text \<open>
  \<^verbatim>\<open>path.dirname\<close> of Node on POSIX: the scan runs from the last index down to 1,
  skips the trailing slashes and the last component, and stops at the slash before it.
\<close>

fun dirname_scan :: "string \<Rightarrow> nat \<Rightarrow> bool \<Rightarrow> nat option" where
  "dirname_scan p 0 matchedSlash = None"
| "dirname_scan p (Suc i) matchedSlash =
     (if p ! Suc i = CHR ''/''
      then (if \<not> matchedSlash then Some (Suc i) else dirname_scan p i matchedSlash)
      else dirname_scan p i False)"

definition dirname :: "string \<Rightarrow> string" where
  "dirname p =
     (case p of
        [] \<Rightarrow> ''.''
      | c # cs \<Rightarrow>
          (let hasRoot = (c = CHR ''/'')
           in case dirname_scan p (length p - 1) True of
                None \<Rightarrow> if hasRoot then ''/'' else ''.''
              | Some end \<Rightarrow> if hasRoot \<and> end = 1 then ''//'' else take end p))"

text \<open>\<^verbatim>\<open>generateFiles\<close>, lines 88 to 95: the effects of one file, and of all.\<close>

definition generateFile :: "string \<times> string \<Rightarrow> effect list" where
  "generateFile f =
     (case f of (pathToGenerate, content) \<Rightarrow>
        (let fullPath = ''dist/'' @ pathToGenerate
         in [ConsoleLog (PStr (''Generating file /'' @ pathToGenerate)),
             TryMkdir (dirname fullPath),
             WriteFile fullPath content]))"

definition generateFiles :: "(string \<times> string) list \<Rightarrow> effect list" where
  "generateFiles filesToGenerate = concat (map generateFile filesToGenerate)"

text \<open>\<^verbatim>\<open>outputString\<close>, lines 141 to 156.\<close>

definition outputString :: "env \<Rightarrow> Arg \<Rightarrow> effect list" where
  \<open>outputString e args =
     (let contentJson0 = [];
          contentJson1 = set_property contentJson0 ''body'' (JStr (body args));
          contentJson2 = set_property contentJson1 ''staticData'' (contentJson args);
          normalizedRoute' = normalizedRoute (route args)
      in [ConsoleLog (PStr (''Pre-rendered /'' @ route args)),
          TryMkdir (''./dist/'' @ normalizedRoute'),
          WriteFile (''dist/'' @ normalizedRoute' @ ''/index.html'') (wrapHtml e args),
          WriteFile (''dist/'' @ normalizedRoute' @ ''/content.json'')
            (stringify (JObj contentJson2))])\<close>

section \<open>The dispatcher\<close>

text \<open>
  The handler subscribed to \<^verbatim>\<open>toJsPort\<close>, lines 63 to 81, in the order of its
  tests. The \<^verbatim>\<open>throw\<close> of the last branch ends the process, after the message
  has been logged; so does a first argument that has not the properties its branch
  reads. A run that ends so is \<^const>\<open>Inl\<close> of the cause and the state it left.
\<close>

definition toJsPort_handler ::
  "env \<Rightarrow> proc_state \<Rightarrow> fromElm \<Rightarrow> (fatal \<times> proc_state) + proc_state" where
  "toJsPort_handler e st fromElm =
     (if command fromElm = Some ''log''
      then Inr (st\<lparr>io := io st @ [ConsoleLog (PJson (log_value fromElm))]\<rparr>)
      else if tag fromElm = Some ''InitialData''
      then (case args0 fromElm of
              InitialDataArgs manifest filesToGenerate \<Rightarrow>
                Inr (st\<lparr>io := io st
                       @ [WriteFile ''dist/manifest.json''
                            (stringify (generateManifest e manifest))]
                       @ generateFiles filesToGenerate\<rparr>)
            | _ \<Rightarrow> Inl (TypeError, st))
      else if tag fromElm = Some ''PageProgress''
      then (case args0 fromElm of
              PageArgs args \<Rightarrow> Inr (st\<lparr>io := io st @ outputString e args\<rparr>)
            | _ \<Rightarrow> Inl (TypeError, st))
      else if tag fromElm = Some ''Errors''
      then Inr (st\<lparr>io := io st @ [ConsoleError (PArgs (args0 fromElm))],
                   foundErrors := True\<rparr>)
      else Inl (UnknownPortTag, st\<lparr>io := io st @ [ConsoleLog (PMsg fromElm)]\<rparr>))"

text \<open>The messages of the channel, handled in the order of their arrival.\<close>

fun run_messages ::
  "env \<Rightarrow> proc_state \<Rightarrow> fromElm list \<Rightarrow> (fatal \<times> proc_state) + proc_state" where
  "run_messages e st [] = Inr st"
| "run_messages e st (m # ms) =
     (case toJsPort_handler e st m of
        Inl f \<Rightarrow> Inl f
      | Inr st' \<Rightarrow> run_messages e st' ms)"

text \<open>The \<^verbatim>\<open>beforeExit\<close> handler, lines 48 to 54: the exit code of the process.\<close>

definition beforeExit :: "proc_state \<Rightarrow> int" where
  "beforeExit st = (if foundErrors st then 1 else 0)"

text \<open>
  \<^verbatim>\<open>runElmApp\<close>: the messages of the whole run, then the exit code decided when the
  channel has closed and the event loop is empty.
\<close>

definition runElmApp ::
  "env \<Rightarrow> fromElm list \<Rightarrow> (fatal \<times> proc_state) + (int \<times> proc_state)" where
  "runElmApp e msgs =
     (case run_messages e initial_state msgs of
        Inl f \<Rightarrow> Inl f
      | Inr st \<Rightarrow> Inr (beforeExit st, st))"

text \<open>The wire form of the four messages of the protocol.\<close>

definition Log :: "json \<Rightarrow> fromElm" where
  "Log v = \<lparr>command = Some ''log'', tag = None, log_value = v, args0 = OtherArgs JNull\<rparr>"

definition InitialData :: "json \<Rightarrow> (string \<times> string) list \<Rightarrow> fromElm" where
  "InitialData manifest files =
     \<lparr>command = None, tag = Some ''InitialData'', log_value = JNull,
      args0 = InitialDataArgs manifest files\<rparr>"

definition PageProgress :: "Arg \<Rightarrow> fromElm" where
  "PageProgress page =
     \<lparr>command = None, tag = Some ''PageProgress'', log_value = JNull, args0 = PageArgs page\<rparr>"

definition Errors :: "json \<Rightarrow> fromElm" where
  "Errors details =
     \<lparr>command = None, tag = Some ''Errors'', log_value = JNull, args0 = OtherArgs details\<rparr>"

section \<open>The module transform\<close>

text \<open>
  \<^verbatim>\<open>elmToEsm\<close>, lines 107 to 118. The files are read and written as text; the file
  system is the map from a path to the content of the file there. The value of the
  constant \<^verbatim>\<open>elmEsm\<close> first, then the function: reading a file that does not exist
  rejects.
\<close>

definition elmEsm :: "string \<Rightarrow> string" where
  "elmEsm elmEs3 =
     ''\<newline>'' @
     ''const scope = {};\<newline>'' @
     replace_first ''}(this));'' ''}(scope));'' elmEs3 @
     ''export const { Elm } = scope;\<newline>'' @
     ''\<newline>''"

datatype io_error = ENOENT | EEXIST | ENOTDIR | EISDIR

definition elmToEsm :: "(string \<rightharpoonup> string) \<Rightarrow> string \<Rightarrow> io_error + (string \<rightharpoonup> string)" where
  "elmToEsm files elmPath =
     (case files elmPath of
        None \<Rightarrow> Inl ENOENT
      | Some elmEs3 \<Rightarrow> Inr (files(elmPath \<mapsto> elmEsm elmEs3)))"

section \<open>The compiler subprocess\<close>

text \<open>
  \<^verbatim>\<open>spawnElmMake\<close>, lines 166 to 194. The compiler is outside the program: it is a
  parameter that maps the command, its arguments, the working directory and the set
  of the files that exist when it starts to its exit code (none when a signal ended
  it) and the set of the files that exist when it has closed. \<^verbatim>\<open>path.join\<close> is a
  parameter too. The result holds what the promise and the process do, the commands
  that were spawned, and the files.
\<close>

datatype spawn_outcome = Resolved | RejectedExit int

type_synonym subprocess =
  "string \<Rightarrow> string list \<Rightarrow> string option \<Rightarrow> string set \<Rightarrow> int option \<times> string set"

record spawn_run =
  outcome :: spawn_outcome
  spawned :: "(string \<times> string list) list"
  files_after :: "string set"

definition fullOutputPath :: "(string \<Rightarrow> string \<Rightarrow> string) \<Rightarrow> string \<Rightarrow> string option \<Rightarrow> string" where
  "fullOutputPath path_join outputPath cwd =
     (case cwd of
        None \<Rightarrow> outputPath
      | Some dir \<Rightarrow> if dir = [] then outputPath else path_join dir outputPath)"

definition spawnElmMake ::
  "(string \<Rightarrow> string \<Rightarrow> string) \<Rightarrow> subprocess \<Rightarrow> string set
   \<Rightarrow> string \<Rightarrow> string \<Rightarrow> string option \<Rightarrow> spawn_run" where
  "spawnElmMake path_join subprocess files elmEntrypointPath outputPath cwd =
     (let full = fullOutputPath path_join outputPath cwd;
          files1 = (if full \<in> files then files - {full} else files);
          args = [elmEntrypointPath, ''--output'', outputPath];
          closed = subprocess ''elm-optimize-level-2'' args cwd files1;
          code = fst closed;
          files2 = snd closed;
          fileOutputExists = (full \<in> files2)
      in if code = Some 0 \<and> fileOutputExists
         then \<lparr>outcome = Resolved, spawned = [(''elm-optimize-level-2'', args)],
               files_after = files2\<rparr>
         else \<lparr>outcome = RejectedExit 1, spawned = [(''elm-optimize-level-2'', args)],
               files_after = files2\<rparr>)"

section \<open>The directory copier\<close>


datatype entry = FileE string | DirE













text \<open>The files an effect trace writes, in order: path and content.\<close>

fun written_files :: "effect list \<Rightarrow> (string \<times> string) list" where
  "written_files [] = []"
| "written_files (WriteFile p c # es) = (p, c) # written_files es"
| "written_files (_ # es) = written_files es"

text \<open>
  Pathname resolution of the file system, for a relative path without \<^verbatim>\<open>..\<close>: the
  components are separated by one or more slashes, and a component \<^verbatim>\<open>.\<close> stays in
  place. Two paths with the same components name the same file.
\<close>

definition resolve_path :: "string \<Rightarrow> string list" where
  "resolve_path p = filter (\<lambda>s. s \<noteq> [] \<and> s \<noteq> ''.'') (js_split CHR ''/'' p)"

text \<open>
  The path segments of a route, as a reader of the specification counts them: the
  non-empty pieces between its slashes. This is not a function of the program.
\<close>

definition path_segments :: "string \<Rightarrow> string list" where
  "path_segments r = filter (\<lambda>s. s \<noteq> []) (js_split CHR ''/'' r)"

text \<open>A concrete environment and a concrete page, for instances of the theorems.\<close>

definition sample_env :: env where
  "sample_env = \<lparr>cliVersion = ''1.0.0'', seo_toString = (\<lambda>_. []), generateManifest = (\<lambda>m. m)\<rparr>"

definition sample_page :: Arg where
  \<open>sample_page =
     \<lparr>body = ''hi'', head = [], errors = [], contentJson = JObj [(''a'', JNum 1)],
      html = ''<p>hi</p>'', route = ''blog/post-1'', title = ''Post''\<rparr>\<close>

section \<open>Facts about the string primitives\<close>

lemma replace_at_end_suffix:
  "replace_at_end pat rep s =
     (if suffix pat s then take (length s - length pat) s @ rep else s)"
proof (induction s)
  case Nil
  then show ?case by simp
next
  case (Cons c cs)
  show ?case
  proof (cases "c # cs = pat")
    case True
    then show ?thesis by auto
  next
    case False
    have sfx: "suffix pat (c # cs) \<longleftrightarrow> suffix pat cs"
      using False by (auto simp: suffix_Cons)
    show ?thesis
    proof (cases "suffix pat cs")
      case True
      then have "length pat \<le> length cs" by (rule suffix_length_le)
      then have "take (length (c # cs) - length pat) (c # cs)
                 = c # take (length cs - length pat) cs"
        by (simp add: Suc_diff_le)
      with True False sfx Cons.IH show ?thesis by simp
    next
      case nsfx: False
      with False sfx Cons.IH show ?thesis by simp
    qed
  qed
qed

lemma replace_at_end_append:
  "replace_at_end pat rep (xs @ pat) = xs @ rep"
  by (simp add: replace_at_end_suffix suffix_def)

lemma length_split_acc:
  "length (split_acc sep acc s) = Suc (count_list s sep)"
  by (induction s arbitrary: acc) auto

lemma length_js_split:
  "length (js_split sep s) = Suc (count_list s sep)"
  by (simp add: js_split_def length_split_acc)

lemma js_join_replicate:
  "js_join sep (x # replicate n x) = concat (replicate n (x @ sep)) @ x"
  by (induction n) auto

lemma map_const_replicate:
  "map (\<lambda>_. x) xs = replicate (length xs) x"
  by (induction xs) auto

lemma concat_replicate_snoc:
  "concat (replicate n x) @ x = concat (replicate (Suc n) x)"
  by (induction n) auto

lemma pathToRoot_nonempty:
  assumes "r \<noteq> []"
  shows "pathToRoot r = concat (replicate (Suc (count_list r CHR ''/'')) ''../'')"
proof -
  let ?n = "count_list r CHR ''/''"
  have "js_join ''/'' (map (\<lambda>_. ''..'') (js_split CHR ''/'' r))
        = js_join ''/'' (replicate (Suc ?n) ''..'')"
    by (simp add: map_const_replicate length_js_split)
  also have "\<dots> = (concat (replicate ?n ''../'') @ ''.'') @ ''.''"
    by (simp add: js_join_replicate)
  finally have "pathToRoot r
                = replace_at_end ''.'' ''./'' ((concat (replicate ?n ''../'') @ ''.'') @ ''.'')"
    using assms by (simp add: pathToRoot_def)
  also have "\<dots> = (concat (replicate ?n ''../'') @ ''.'') @ ''./''"
    by (rule replace_at_end_append)
  also have "\<dots> = concat (replicate ?n ''../'') @ ''../''"
    by simp
  also have "\<dots> = concat (replicate (Suc ?n) ''../'')"
    by (rule concat_replicate_snoc)
  finally show ?thesis .
qed

lemma cleanRoute_empty_iff:
  "cleanRoute r = [] \<longleftrightarrow> r = [] \<or> r = ''/''"
proof (cases r)
  case Nil
  then show ?thesis by (simp add: cleanRoute_def)
next
  case (Cons c cs)
  show ?thesis
  proof (cases "c = CHR ''/''")
    case True
    with Cons show ?thesis by (simp add: cleanRoute_def)
  next
    case False
    have "replace_at_end ''/'' [] (c # cs) \<noteq> []"
      using False by (cases cs) auto
    with Cons False show ?thesis by (simp add: cleanRoute_def)
  qed
qed

section \<open>Route normalization and the base href\<close>






lemma baseRoute_pieces:
  "baseRoute r =
     (if r = [] \<or> r = ''/'' then ''./''
      else concat (replicate (length (js_split CHR ''/'' r)) ''../''))"
proof (cases "r = [] \<or> r = ''/''")
  case True
  then have "cleanRoute r = []" by (simp add: cleanRoute_empty_iff)
  with True show ?thesis by (simp add: baseRoute_def)
next
  case False
  then have "cleanRoute r \<noteq> []" by (simp add: cleanRoute_empty_iff)
  moreover from False have "r \<noteq> []" by simp
  ultimately show ?thesis
    using False by (simp add: baseRoute_def pathToRoot_nonempty length_js_split)
qed

lemma baseRoute_without_empty_pieces:
  assumes "r \<noteq> []" and "[] \<notin> set (js_split CHR ''/'' r)"
  shows "baseRoute r = concat (replicate (length (path_segments r)) ''../'')"
proof -
  have "r \<noteq> ''/''"
    using assms(2) by (auto simp: js_split_def)
  moreover have "path_segments r = js_split CHR ''/'' r"
    unfolding path_segments_def using assms(2) by (intro filter_True) metis
  ultimately show ?thesis
    using assms(1) by (simp add: baseRoute_pieces)
qed

text \<open>
  C4: the claim is that the base href is \<^verbatim>\<open>../\<close> once per path segment of the
  route, and \<^verbatim>\<open>./\<close> for the root route. The two stated instances hold: the base
  href of the empty route is \<^verbatim>\<open>./\<close> and that of \<^verbatim>\<open>a/b\<close> is \<^verbatim>\<open>../../\<close>. The code
  breaks the claim at the route \<^verbatim>\<open>/a\<close>, which has the one segment \<^verbatim>\<open>a\<close>: its base
  href is \<^verbatim>\<open>../../\<close>. \<^verbatim>\<open>baseRoute\<close> computes the cleaned route \<^verbatim>\<open>a\<close> and then calls
  \<^verbatim>\<open>pathToRoot\<close> on the route as received, although \<^verbatim>\<open>pathToRoot\<close> documents its
  parameter as the cleaned route; on the cleaned route it gives \<^verbatim>\<open>../\<close>, as the
  claim says.
\<close>

theorem baseRoute_leading_slash:
  "path_segments ''/a'' = [''a'']
   \<and> baseRoute ''/a'' = ''../../''
   \<and> cleanRoute ''/a'' = ''a''
   \<and> pathToRoot (cleanRoute ''/a'') = ''../''
   \<and> baseRoute [] = ''./''
   \<and> baseRoute ''a/b'' = ''../../''"
proof -
  have "path_segments ''/a'' = [''a'']"
    by (simp add: path_segments_def js_split_def)
  moreover have "baseRoute ''/a'' = ''../../''"
    by (simp add: baseRoute_pieces js_split_def)
  moreover have c: "cleanRoute ''/a'' = ''a''"
    by (simp add: cleanRoute_def)
  moreover have "pathToRoot (cleanRoute ''/a'') = ''../''"
    unfolding c by (simp add: pathToRoot_nonempty)
  moreover have "baseRoute [] = ''./''"
    by (simp add: baseRoute_pieces)
  moreover have "baseRoute ''a/b'' = ''../../''"
    by (simp add: baseRoute_pieces js_split_def)
  ultimately show ?thesis by blast
qed

section \<open>The dispatcher and the build result\<close>

lemma run_messages_append:
  "run_messages e st (xs @ ys)
   = (case run_messages e st xs of Inl f \<Rightarrow> Inl f | Inr st1 \<Rightarrow> run_messages e st1 ys)"
  by (induction xs arbitrary: st) (auto split: sum.splits)

lemma run_messages_pages:
  "run_messages e st (map PageProgress pages)
   = Inr (st\<lparr>io := io st @ concat (map (outputString e) pages)\<rparr>)"
proof (induction pages arbitrary: st)
  case Nil
  then show ?case by simp
next
  case (Cons page pages)
  have "toJsPort_handler e st (PageProgress page)
        = Inr (st\<lparr>io := io st @ outputString e page\<rparr>)"
    by (simp add: toJsPort_handler_def PageProgress_def)
  then show ?case by (simp add: Cons.IH)
qed

lemma handler_Errors:
  assumes "command m \<noteq> Some ''log''" and "tag m = Some ''Errors''"
  shows "toJsPort_handler e st m
         = Inr (st\<lparr>io := io st @ [ConsoleError (PArgs (args0 m))], foundErrors := True\<rparr>)"
  using assms by (simp add: toJsPort_handler_def)

lemma handler_foundErrors:
  assumes "toJsPort_handler e st m = Inr st'"
  shows "foundErrors st' = (foundErrors st \<or> (command m \<noteq> Some ''log'' \<and> tag m = Some ''Errors''))"
  using assms
  by (auto simp: toJsPort_handler_def split: if_splits msg_args.splits)

lemma run_messages_foundErrors:
  assumes "run_messages e st ms = Inr st'"
  shows "foundErrors st'
         = (foundErrors st \<or> (\<exists>m \<in> set ms. command m \<noteq> Some ''log'' \<and> tag m = Some ''Errors''))"
  using assms
proof (induction ms arbitrary: st)
  case Nil
  then show ?case by simp
next
  case (Cons m ms)
  from Cons.prems obtain st1 where h: "toJsPort_handler e st m = Inr st1"
    and r: "run_messages e st1 ms = Inr st'"
    by (auto split: sum.splits)
  from handler_foundErrors [OF h] Cons.IH [OF r] show ?case
    by auto
qed

lemma outputString_writes:
  "written_files (outputString e page)
   = [(''dist/'' @ normalizedRoute (route page) @ ''/index.html'', wrapHtml e page),
      (''dist/'' @ normalizedRoute (route page) @ ''/content.json'',
       stringify (JObj [(''body'', JStr (body page)), (''staticData'', contentJson page)]))]"
  by (simp add: outputString_def set_property_def Let_def)

text \<open>
  C1: a message of the \<^verbatim>\<open>Errors\<close> branch sets the build result to failure and prints
  its details on the error stream, and the dispatcher goes on: every following
  \<^verbatim>\<open>PageProgress\<close> message is handled, the two files of each page are written, and
  the process, whatever messages it handled earlier, exits with code 1 when the
  channel has closed.
\<close>

theorem errors_message_does_not_halt:
  assumes "run_messages e initial_state earlier = Inr st"
    and "command m \<noteq> Some ''log''" and "tag m = Some ''Errors''"
  shows "\<exists>st'. run_messages e st (m # map PageProgress pages) = Inr st'
           \<and> runElmApp e (earlier @ m # map PageProgress pages) = Inr (1, st')
           \<and> foundErrors st'
           \<and> io st' = io st @ ConsoleError (PArgs (args0 m)) # concat (map (outputString e) pages)
           \<and> (\<forall>page \<in> set pages.
                 WriteFile (''dist/'' @ normalizedRoute (route page) @ ''/index.html'')
                   (wrapHtml e page) \<in> set (io st')
               \<and> WriteFile (''dist/'' @ normalizedRoute (route page) @ ''/content.json'')
                   (stringify (JObj [(''body'', JStr (body page)),
                                     (''staticData'', contentJson page)])) \<in> set (io st'))"
proof -
  let ?st1 = "st\<lparr>io := io st @ [ConsoleError (PArgs (args0 m))], foundErrors := True\<rparr>"
  let ?st' = "?st1\<lparr>io := io ?st1 @ concat (map (outputString e) pages)\<rparr>"
  have run: "run_messages e st (m # map PageProgress pages) = Inr ?st'"
    by (simp add: handler_Errors [OF assms(2,3)] run_messages_pages)
  have "run_messages e initial_state (earlier @ m # map PageProgress pages) = Inr ?st'"
    unfolding run_messages_append assms(1) using run by simp
  then have exit: "runElmApp e (earlier @ m # map PageProgress pages) = Inr (1, ?st')"
    by (simp add: runElmApp_def beforeExit_def)
  have files: "WriteFile (''dist/'' @ normalizedRoute (route page) @ ''/index.html'')
                   (wrapHtml e page) \<in> set (io ?st')
               \<and> WriteFile (''dist/'' @ normalizedRoute (route page) @ ''/content.json'')
                   (stringify (JObj [(''body'', JStr (body page)),
                                     (''staticData'', contentJson page)])) \<in> set (io ?st')"
    if "page \<in> set pages" for page
  proof -
    have "set (outputString e page) \<subseteq> set (io ?st')"
      using that by auto
    moreover have "WriteFile (''dist/'' @ normalizedRoute (route page) @ ''/index.html'')
                   (wrapHtml e page) \<in> set (outputString e page)"
      by (simp add: outputString_def Let_def)
    moreover have "WriteFile (''dist/'' @ normalizedRoute (route page) @ ''/content.json'')
                   (stringify (JObj [(''body'', JStr (body page)),
                                     (''staticData'', contentJson page)]))
                   \<in> set (outputString e page)"
      by (simp add: outputString_def set_property_def Let_def)
    ultimately show ?thesis by blast
  qed
  have "foundErrors ?st'" by simp
  moreover have "io ?st' = io st @ ConsoleError (PArgs (args0 m)) # concat (map (outputString e) pages)"
    by simp
  ultimately show ?thesis
    using run exit files by blast
qed

theorem errors_message_does_not_halt_witness:
  "\<exists>st'. runElmApp sample_env [Errors (JStr ''boom''), PageProgress sample_page] = Inr (1, st')
         \<and> foundErrors st'
         \<and> ConsoleError (PArgs (OtherArgs (JStr ''boom''))) \<in> set (io st')
         \<and> WriteFile ''dist/blog/post-1/index.html'' (wrapHtml sample_env sample_page)
             \<in> set (io st')"
proof -
  have p: "run_messages sample_env initial_state [] = Inr initial_state"
    by simp
  have c: "command (Errors (JStr ''boom'')) \<noteq> Some ''log''"
    by (simp add: Errors_def)
  have t: "tag (Errors (JStr ''boom'')) = Some ''Errors''"
    by (simp add: Errors_def)
  have n: "normalizedRoute (route sample_page) = ''blog/post-1''"
    by (simp add: sample_page_def normalizedRoute_def)
  have a: "args0 (Errors (JStr ''boom'')) = OtherArgs (JStr ''boom'')"
    by (simp add: Errors_def)
  from errors_message_does_not_halt [OF p c t, of "[sample_page]"]
  obtain st' where
    r: "runElmApp sample_env ([] @ Errors (JStr ''boom'') # map PageProgress [sample_page])
        = Inr (1, st')"
    and f: "foundErrors st'"
    and i: "io st' = io initial_state @ ConsoleError (PArgs (args0 (Errors (JStr ''boom'')))) #
              concat (map (outputString sample_env) [sample_page])"
    and w: "\<forall>page \<in> set [sample_page].
              WriteFile (''dist/'' @ normalizedRoute (route page) @ ''/index.html'')
                (wrapHtml sample_env page) \<in> set (io st')
            \<and> WriteFile (''dist/'' @ normalizedRoute (route page) @ ''/content.json'')
                (stringify (JObj [(''body'', JStr (body page)),
                                  (''staticData'', contentJson page)])) \<in> set (io st')"
    by blast
  from w n have "WriteFile ''dist/blog/post-1/index.html'' (wrapHtml sample_env sample_page)
                   \<in> set (io st')"
    by simp
  moreover from i a have "ConsoleError (PArgs (OtherArgs (JStr ''boom''))) \<in> set (io st')"
    by simp
  ultimately show ?thesis using r f by auto
qed

text \<open>
  C8: a \<^verbatim>\<open>Log\<close> message (on the wire, an object whose \<^verbatim>\<open>command\<close> is \<^verbatim>\<open>log\<close>) has
  its value forwarded to the log, and handling it requests no file operation: the
  trace grows by the one log line, and neither a directory nor a file is created or
  written.
\<close>

theorem log_message_no_file_io:
  assumes "command m = Some ''log''"
  shows "\<exists>st'. toJsPort_handler e st m = Inr st'
           \<and> io st' = io st @ [ConsoleLog (PJson (log_value m))]
           \<and> filter is_file_io (io st') = filter is_file_io (io st)
           \<and> written_files (io st') = written_files (io st)
           \<and> foundErrors st' = foundErrors st"
proof -
  have wf: "written_files (xs @ [ConsoleLog x]) = written_files xs" for xs x
    by (induction xs rule: written_files.induct) auto
  show ?thesis
    using assms by (simp add: toJsPort_handler_def wf)
qed

theorem log_message_no_file_io_witness:
  "\<exists>st'. toJsPort_handler sample_env initial_state (Log (JStr ''hello'')) = Inr st'
         \<and> io st' = [ConsoleLog (PJson (JStr ''hello''))]
         \<and> filter is_file_io (io st') = []"
proof -
  have c: "command (Log (JStr ''hello'')) = Some ''log''"
    by (simp add: Log_def)
  from log_message_no_file_io [OF c, of sample_env initial_state]
  show ?thesis
    by (auto simp: Log_def initial_state_def)
qed

text \<open>
  C10: the flag \<^verbatim>\<open>foundErrors\<close> starts false. A handled message leaves it set if it
  was set, and sets it exactly when the message is taken by the \<^verbatim>\<open>Errors\<close> branch;
  the \<^verbatim>\<open>Log\<close>, \<^verbatim>\<open>InitialData\<close> and \<^verbatim>\<open>PageProgress\<close> branches, with all the file
  operations they request, leave it as it was. After any sequence of handled
  messages the flag is set exactly when it was set before or one of the messages was
  an \<^verbatim>\<open>Errors\<close> message, and the exit code read at exit is 1 exactly when it is set.
\<close>

theorem foundErrors_only_set_by_Errors:
  "foundErrors initial_state = False
   \<and> (toJsPort_handler e st m = Inr st' \<longrightarrow>
        foundErrors st'
        = (foundErrors st \<or> (command m \<noteq> Some ''log'' \<and> tag m = Some ''Errors'')))
   \<and> toJsPort_handler e st (Log v) = Inr (st\<lparr>io := io st @ [ConsoleLog (PJson v)]\<rparr>)
   \<and> toJsPort_handler e st (InitialData manifest files)
       = Inr (st\<lparr>io := io st @ [WriteFile ''dist/manifest.json''
                                   (stringify (generateManifest e manifest))]
                             @ generateFiles files\<rparr>)
   \<and> toJsPort_handler e st (PageProgress page) = Inr (st\<lparr>io := io st @ outputString e page\<rparr>)
   \<and> (run_messages e st ms = Inr st'' \<longrightarrow>
        foundErrors st''
        = (foundErrors st
           \<or> (\<exists>m \<in> set ms. command m \<noteq> Some ''log'' \<and> tag m = Some ''Errors'')))
   \<and> beforeExit st = (if foundErrors st then 1 else 0)"
proof -
  have "foundErrors initial_state = False"
    by (simp add: initial_state_def)
  moreover have "toJsPort_handler e st (Log v) = Inr (st\<lparr>io := io st @ [ConsoleLog (PJson v)]\<rparr>)"
    by (simp add: toJsPort_handler_def Log_def)
  moreover have "toJsPort_handler e st (InitialData manifest files)
       = Inr (st\<lparr>io := io st @ [WriteFile ''dist/manifest.json''
                                   (stringify (generateManifest e manifest))]
                             @ generateFiles files\<rparr>)"
    by (simp add: toJsPort_handler_def InitialData_def)
  moreover have "toJsPort_handler e st (PageProgress page)
                 = Inr (st\<lparr>io := io st @ outputString e page\<rparr>)"
    by (simp add: toJsPort_handler_def PageProgress_def)
  moreover have "beforeExit st = (if foundErrors st then 1 else 0)"
    by (simp add: beforeExit_def)
  ultimately show ?thesis
    using handler_foundErrors [of e st m st'] run_messages_foundErrors [of e st ms st'']
    by blast
qed

theorem foundErrors_only_set_by_Errors_witness:
  "\<exists>st'. run_messages sample_env initial_state
            [Errors (JStr ''boom''), Log (JStr ''hello''), PageProgress sample_page] = Inr st'
         \<and> foundErrors st'
         \<and> beforeExit st' = 1"
proof -
  let ?ms = "[Errors (JStr ''boom''), Log (JStr ''hello''), PageProgress sample_page]"
  obtain st' where r: "run_messages sample_env initial_state ?ms = Inr st'"
    by (simp add: toJsPort_handler_def Errors_def Log_def PageProgress_def)
  have "\<exists>m \<in> set ?ms. command m \<noteq> Some ''log'' \<and> tag m = Some ''Errors''"
    by (simp add: Errors_def)
  with r foundErrors_only_set_by_Errors [of sample_env initial_state _ _ _ _ _ _ ?ms st']
  have f: "foundErrors st'"
    by blast
  with foundErrors_only_set_by_Errors [of sample_env st']
  have "beforeExit st' = 1"
    by simp
  with r f show ?thesis by blast
qed

section \<open>The files of a page\<close>

lemma stringify_two_fields:
  \<open>stringify (JObj [(''body'', b), (''staticData'', d)])
   = ''{"body":'' @ stringify b @ '',"staticData":'' @ stringify d @ ''}''\<close>
  by (simp add: quote_def escape_char_def)

text \<open>
  C2, as stated, fails on the code: the \<^verbatim>\<open>body\<close> field of \<^verbatim>\<open>content.json\<close> is the
  page's \<^verbatim>\<open>body\<close>, which is another field of the page than its \<^verbatim>\<open>html\<close>. For the
  page with html \<^verbatim>\<open><p>hi</p>\<close>, body \<^verbatim>\<open>hi\<close> and contentJson \<^verbatim>\<open>{"a":1}\<close> the file
  does not hold the html.
\<close>

theorem content_json_body_is_not_html:
  \<open>map_of (written_files (outputString sample_env sample_page)) ''dist/blog/post-1/content.json''
     = Some ''{"body":"hi","staticData":{"a":1}}''
   \<and> html sample_page = ''<p>hi</p>''
   \<and> map_of (written_files (outputString sample_env sample_page)) ''dist/blog/post-1/content.json''
     \<noteq> Some ''{"body":"<p>hi</p>","staticData":{"a":1}}''\<close>
proof -
  have \<open>map_of (written_files (outputString sample_env sample_page)) ''dist/blog/post-1/content.json''
        = Some ''{"body":"hi","staticData":{"a":1}}''\<close>
    by (simp add: outputString_writes sample_page_def normalizedRoute_def quote_def
          escape_char_def show_int_def show_nat.simps)
  then show ?thesis
    by (simp add: sample_page_def)
qed

text \<open>
  C2, amended: for every rendered page, \<^verbatim>\<open>outputString\<close> writes two files, the HTML
  document and \<^verbatim>\<open>dist/<normalizedRoute>/content.json\<close>, and the content of the
  latter is exactly the JSON object with the two fields \<^verbatim>\<open>body\<close>, holding the
  page's \<^verbatim>\<open>body\<close> string, and \<^verbatim>\<open>staticData\<close>, holding the page's contentJson, in
  this order and with no other field. In particular, for a page with body
  \<^verbatim>\<open><p>hi</p>\<close> and contentJson \<^verbatim>\<open>{"a":1}\<close> the content is
  \<^verbatim>\<open>{"body":"<p>hi</p>","staticData":{"a":1}}\<close>.
\<close>

theorem content_json_exact:
  \<open>written_files (outputString e page)
     = [(''dist/'' @ normalizedRoute (route page) @ ''/index.html'', wrapHtml e page),
        (''dist/'' @ normalizedRoute (route page) @ ''/content.json'',
         ''{"body":'' @ quote (body page) @ '',"staticData":''
           @ stringify (contentJson page) @ ''}'')]
   \<and> written_files
        (outputString e (page\<lparr>body := ''<p>hi</p>'', contentJson := JObj [(''a'', JNum 1)]\<rparr>)) ! 1
     = (''dist/'' @ normalizedRoute (route page) @ ''/content.json'',
        ''{"body":"<p>hi</p>","staticData":{"a":1}}'')\<close>
proof -
  have gen: \<open>written_files (outputString e page)
     = [(''dist/'' @ normalizedRoute (route page) @ ''/index.html'', wrapHtml e page),
        (''dist/'' @ normalizedRoute (route page) @ ''/content.json'',
         ''{"body":'' @ quote (body page) @ '',"staticData":''
           @ stringify (contentJson page) @ ''}'')]\<close> for page
    by (simp only: outputString_writes stringify_two_fields, simp)
  have inst: \<open>written_files
        (outputString e (page\<lparr>body := ''<p>hi</p>'', contentJson := JObj [(''a'', JNum 1)]\<rparr>)) ! 1
     = (''dist/'' @ normalizedRoute (route page) @ ''/content.json'',
        ''{"body":"<p>hi</p>","staticData":{"a":1}}'')\<close>
    by (simp add: outputString_writes quote_def escape_char_def show_int_def show_nat.simps)
  from gen [of page] inst show ?thesis
    by (rule conjI)
qed

text \<open>
  C7: for \<^verbatim>\<open>PageProgress\<close> messages with the routes \<^verbatim>\<open>""\<close>, \<^verbatim>\<open>blog/post-1\<close> and
  \<^verbatim>\<open>blog/post-1/index\<close>, the HTML documents of the three pages are written to the
  files \<^verbatim>\<open>dist/index.html\<close>, \<^verbatim>\<open>dist/blog/post-1/index.html\<close> and
  \<^verbatim>\<open>dist/blog/post-1/index.html\<close>: the path of the third write (the string
  \<^verbatim>\<open>dist/blog/post-1//index.html\<close>) resolves to the file of the second, so the
  third page overwrites the second.
\<close>

theorem page_paths_collide:
  "\<exists>st'. run_messages e initial_state
            [PageProgress (a\<lparr>route := []\<rparr>),
             PageProgress (b\<lparr>route := ''blog/post-1''\<rparr>),
             PageProgress (c\<lparr>route := ''blog/post-1/index''\<rparr>)] = Inr st'
         \<and> map fst (written_files (io st'))
           = [''dist//index.html'', ''dist//content.json'',
              ''dist/blog/post-1/index.html'', ''dist/blog/post-1/content.json'',
              ''dist/blog/post-1//index.html'', ''dist/blog/post-1//content.json'']
         \<and> map (\<lambda>f. (resolve_path (fst f), snd f)) (written_files (io st'))
           = [([''dist'', ''index.html''], wrapHtml e (a\<lparr>route := []\<rparr>)),
              ([''dist'', ''content.json''],
               stringify (JObj [(''body'', JStr (body a)), (''staticData'', contentJson a)])),
              ([''dist'', ''blog'', ''post-1'', ''index.html''],
               wrapHtml e (b\<lparr>route := ''blog/post-1''\<rparr>)),
              ([''dist'', ''blog'', ''post-1'', ''content.json''],
               stringify (JObj [(''body'', JStr (body b)), (''staticData'', contentJson b)])),
              ([''dist'', ''blog'', ''post-1'', ''index.html''],
               wrapHtml e (c\<lparr>route := ''blog/post-1/index''\<rparr>)),
              ([''dist'', ''blog'', ''post-1'', ''content.json''],
               stringify (JObj [(''body'', JStr (body c)), (''staticData'', contentJson c)]))]"
proof -
  let ?pages = "[a\<lparr>route := []\<rparr>, b\<lparr>route := ''blog/post-1''\<rparr>,
                 c\<lparr>route := ''blog/post-1/index''\<rparr>]"
  let ?st' = "initial_state\<lparr>io := io initial_state @ concat (map (outputString e) ?pages)\<rparr>"
  have run: "run_messages e initial_state (map PageProgress ?pages) = Inr ?st'"
    by (rule run_messages_pages)
  have wf_app: "written_files (xs @ ys) = written_files xs @ written_files ys" for xs ys
    by (induction xs rule: written_files.induct) auto
  have n1: "normalizedRoute [] = []"
    and n2: "normalizedRoute ''blog/post-1'' = ''blog/post-1''"
    and n3: "normalizedRoute ''blog/post-1/index'' = ''blog/post-1/''"
    by (simp_all add: normalizedRoute_def)
  have w: "written_files (io ?st')
           = written_files (outputString e (a\<lparr>route := []\<rparr>))
             @ written_files (outputString e (b\<lparr>route := ''blog/post-1''\<rparr>))
             @ written_files (outputString e (c\<lparr>route := ''blog/post-1/index''\<rparr>))"
    by (simp add: initial_state_def wf_app)
  have r1: "resolve_path ''dist//index.html'' = [''dist'', ''index.html'']"
    and r2: "resolve_path ''dist//content.json'' = [''dist'', ''content.json'']"
    and r3: "resolve_path ''dist/blog/post-1/index.html'' = [''dist'', ''blog'', ''post-1'', ''index.html'']"
    and r4: "resolve_path ''dist/blog/post-1/content.json'' = [''dist'', ''blog'', ''post-1'', ''content.json'']"
    and r5: "resolve_path ''dist/blog/post-1//index.html'' = [''dist'', ''blog'', ''post-1'', ''index.html'']"
    and r6: "resolve_path ''dist/blog/post-1//content.json'' = [''dist'', ''blog'', ''post-1'', ''content.json'']"
    by (simp_all add: resolve_path_def js_split_def)
  have paths: "map fst (written_files (io ?st'))
           = [''dist//index.html'', ''dist//content.json'',
              ''dist/blog/post-1/index.html'', ''dist/blog/post-1/content.json'',
              ''dist/blog/post-1//index.html'', ''dist/blog/post-1//content.json'']"
    unfolding w outputString_writes by (simp add: n1 n2 n3)
  have files: "map (\<lambda>f. (resolve_path (fst f), snd f)) (written_files (io ?st'))
           = [([''dist'', ''index.html''], wrapHtml e (a\<lparr>route := []\<rparr>)),
              ([''dist'', ''content.json''],
               stringify (JObj [(''body'', JStr (body a)), (''staticData'', contentJson a)])),
              ([''dist'', ''blog'', ''post-1'', ''index.html''],
               wrapHtml e (b\<lparr>route := ''blog/post-1''\<rparr>)),
              ([''dist'', ''blog'', ''post-1'', ''content.json''],
               stringify (JObj [(''body'', JStr (body b)), (''staticData'', contentJson b)])),
              ([''dist'', ''blog'', ''post-1'', ''index.html''],
               wrapHtml e (c\<lparr>route := ''blog/post-1/index''\<rparr>)),
              ([''dist'', ''blog'', ''post-1'', ''content.json''],
               stringify (JObj [(''body'', JStr (body c)), (''staticData'', contentJson c)]))]"
    unfolding w outputString_writes
    by (simp add: n1 n2 n3 r1 r2 r3 r4 r5 r6 del: stringify.simps)
  from run paths files show ?thesis
    by (intro exI [of _ ?st']) simp
qed

section \<open>The module transform and the compiler subprocess\<close>

lemma replace_first_at:
  assumes "\<forall>j < length pre. \<not> prefix pat (drop j (pre @ pat @ post))"
  shows "replace_first pat rep (pre @ pat @ post) = pre @ rep @ post"
  using assms
proof (induction pre)
  case Nil
  show ?case
  proof (cases "pat @ post")
    case Nil
    then show ?thesis by simp
  next
    case (Cons c cs)
    have "prefix pat (c # cs)"
      unfolding Cons [symmetric] by simp
    moreover have "drop (length pat) (c # cs) = post"
      unfolding Cons [symmetric] by simp
    ultimately have "replace_first pat rep (c # cs) = rep @ post"
      by simp
    then show ?thesis
      unfolding Cons by simp
  qed
next
  case (Cons c pre)
  from Cons.prems have "\<not> prefix pat (drop 0 ((c # pre) @ pat @ post))"
    by blast
  then have np: "\<not> prefix pat (c # pre @ pat @ post)"
    by simp
  have "\<forall>j < length pre. \<not> prefix pat (drop j (pre @ pat @ post))"
  proof (intro allI impI)
    fix j assume "j < length pre"
    then have "Suc j < length (c # pre)" by simp
    with Cons.prems have "\<not> prefix pat (drop (Suc j) ((c # pre) @ pat @ post))"
      by blast
    then show "\<not> prefix pat (drop j (pre @ pat @ post))" by simp
  qed
  then have "replace_first pat rep (pre @ pat @ post) = pre @ rep @ post"
    by (rule Cons.IH)
  with np show ?case by simp
qed

text \<open>
  C6, as stated, fails on the code: the output is not the input with the marker
  substituted and one export statement appended. The output starts with the 19
  characters of an empty line and the declaration \<^verbatim>\<open>const scope = {};\<close>, which are
  not in the input, and it ends with an empty line after the export statement.
\<close>

theorem elmEsm_adds_a_prelude:
  "elmEsm ''}(this));'' \<noteq> ''}(scope));'' @ ''export const { Elm } = scope;\<newline>''
   \<and> elmEsm ''}(this));''
     = ''\<newline>const scope = {};\<newline>}(scope));export const { Elm } = scope;\<newline>\<newline>''"
  by (simp add: elmEsm_def)

text \<open>
  C6, amended: for every compiled artifact that contains the marker \<^verbatim>\<open>}(this));\<close>,
  the module transform writes back, at the same path, an empty line and the line
  \<^verbatim>\<open>const scope = {};\<close>, then the input with the first occurrence of the marker
  replaced by \<^verbatim>\<open>}(scope));\<close> and every other character before and after it
  unchanged, then the line \<^verbatim>\<open>export const { Elm } = scope;\<close> and an empty line;
  nothing else is added or changed, and no other file changes.
\<close>

theorem elmToEsm_exact_output:
  assumes "files elmPath = Some (pre @ ''}(this));'' @ post)"
    and "\<forall>j < length pre. \<not> prefix ''}(this));'' (drop j (pre @ ''}(this));'' @ post))"
  shows "elmToEsm files elmPath
         = Inr (files(elmPath \<mapsto>
                  ''\<newline>const scope = {};\<newline>'' @ pre @ ''}(scope));'' @ post
                  @ ''export const { Elm } = scope;\<newline>\<newline>''))"
proof -
  have "replace_first ''}(this));'' ''}(scope));'' (pre @ ''}(this));'' @ post)
        = pre @ ''}(scope));'' @ post"
    using assms(2) by (rule replace_first_at)
  then have "elmEsm (pre @ ''}(this));'' @ post)
             = ''\<newline>const scope = {};\<newline>'' @ pre @ ''}(scope));'' @ post
               @ ''export const { Elm } = scope;\<newline>\<newline>''"
    by (simp add: elmEsm_def)
  with assms(1) show ?thesis
    by (simp add: elmToEsm_def)
qed

theorem elmToEsm_exact_output_witness:
  "elmToEsm [''dist/elm.js'' \<mapsto> ''(function(scope){}(this));''] ''dist/elm.js''
   = Inr [''dist/elm.js'' \<mapsto>
            ''\<newline>const scope = {};\<newline>(function(scope){}(scope));export const { Elm } = scope;\<newline>\<newline>'']"
proof -
  let ?pre = "''(function(scope){''"
  let ?files = "[''dist/elm.js'' \<mapsto> ''(function(scope){}(this));'']"
  have a: "?files ''dist/elm.js'' = Some (?pre @ ''}(this));'' @ [])"
    by simp
  have "\<not> prefix ''}(this));'' (drop j (?pre @ ''}(this));'' @ []))" if "j < length ?pre" for j
  proof -
    from that have "j \<in> set [0 ..< 17]" by simp
    then show ?thesis
      unfolding upt_rec [of 0] upt_rec [of 1] by (simp add: upt_rec) (elim disjE; simp)
  qed
  then have b: "\<forall>j < length ?pre. \<not> prefix ''}(this));'' (drop j (?pre @ ''}(this));'' @ []))"
    by blast
  from a b elmToEsm_exact_output [of ?files "''dist/elm.js''" ?pre "[]"] show ?thesis
    by simp
qed

text \<open>
  C5: an invocation of the compiler resolves exactly when the exit code of the
  subprocess is zero and the output file exists when the subprocess has closed. In
  every other case the promise is rejected and the process exits at once with status
  1. Either way the compiler was spawned once: nothing is retried.
\<close>

theorem spawnElmMake_success_iff:
  "(outcome (spawnElmMake path_join subprocess files entry outputPath cwd) = Resolved
      \<longleftrightarrow> fst (subprocess ''elm-optimize-level-2'' [entry, ''--output'', outputPath] cwd
                 (files - {fullOutputPath path_join outputPath cwd})) = Some 0
          \<and> fullOutputPath path_join outputPath cwd
              \<in> snd (subprocess ''elm-optimize-level-2'' [entry, ''--output'', outputPath] cwd
                       (files - {fullOutputPath path_join outputPath cwd})))
   \<and> (outcome (spawnElmMake path_join subprocess files entry outputPath cwd) \<noteq> Resolved
      \<longleftrightarrow> outcome (spawnElmMake path_join subprocess files entry outputPath cwd) = RejectedExit 1)
   \<and> spawned (spawnElmMake path_join subprocess files entry outputPath cwd)
     = [(''elm-optimize-level-2'', [entry, ''--output'', outputPath])]"
proof -
  have "(if fullOutputPath path_join outputPath cwd \<in> files
         then files - {fullOutputPath path_join outputPath cwd} else files)
        = files - {fullOutputPath path_join outputPath cwd}"
    by auto
  then show ?thesis
    by (simp add: spawnElmMake_def Let_def)
qed

theorem spawnElmMake_success_iff_witness:
  "outcome (spawnElmMake (\<lambda>d f. d @ ''/'' @ f)
              (\<lambda>cmd args cwd fs. (Some 0, insert ''dist/elm.js'' fs)) {}
              ''src/Main.elm'' ''dist/elm.js'' None) = Resolved
   \<and> outcome (spawnElmMake (\<lambda>d f. d @ ''/'' @ f)
              (\<lambda>cmd args cwd fs. (Some 1, insert ''dist/elm.js'' fs)) {}
              ''src/Main.elm'' ''dist/elm.js'' None) = RejectedExit 1
   \<and> outcome (spawnElmMake (\<lambda>d f. d @ ''/'' @ f)
              (\<lambda>cmd args cwd fs. (Some 0, fs)) {''dist/elm.js''}
              ''src/Main.elm'' ''dist/elm.js'' None) = RejectedExit 1"
proof -
  have "outcome (spawnElmMake (\<lambda>d f. d @ ''/'' @ f)
              (\<lambda>cmd args cwd fs. (Some 0, insert ''dist/elm.js'' fs)) {}
              ''src/Main.elm'' ''dist/elm.js'' None) = Resolved"
    using spawnElmMake_success_iff [of "\<lambda>d f. d @ ''/'' @ f"
        "\<lambda>cmd args cwd fs. (Some 0, insert ''dist/elm.js'' fs)" "{}"
        "''src/Main.elm''" "''dist/elm.js''" None]
    by (auto simp add: fullOutputPath_def)
  moreover have "outcome (spawnElmMake (\<lambda>d f. d @ ''/'' @ f)
              (\<lambda>cmd args cwd fs. (Some 1, insert ''dist/elm.js'' fs)) {}
              ''src/Main.elm'' ''dist/elm.js'' None) = RejectedExit 1"
    using spawnElmMake_success_iff [of "\<lambda>d f. d @ ''/'' @ f"
        "\<lambda>cmd args cwd fs. (Some 1, insert ''dist/elm.js'' fs)" "{}"
        "''src/Main.elm''" "''dist/elm.js''" None]
    by (auto simp add: fullOutputPath_def)
  moreover have "outcome (spawnElmMake (\<lambda>d f. d @ ''/'' @ f)
              (\<lambda>cmd args cwd fs. (Some 0, fs)) {''dist/elm.js''}
              ''src/Main.elm'' ''dist/elm.js'' None) = RejectedExit 1"
    using spawnElmMake_success_iff [of "\<lambda>d f. d @ ''/'' @ f"
        "\<lambda>cmd args cwd fs. (Some 0, fs)" "{''dist/elm.js''}"
        "''src/Main.elm''" "''dist/elm.js''" None]
    by (auto simp add: fullOutputPath_def)
  ultimately show ?thesis by blast
qed

section \<open>Correctness of the directory copier\<close>






















end
